theory Spec2Isabelle
  imports Main "HOL-Library.Sublist"
begin

section \<open>Python string primitives used by ctgovchat.py\<close>

text \<open>
  Text is modelled as \<^typ>\<open>string\<close>, one \<^typ>\<open>char\<close> per character, for the
  characters up to U+00FF. The functions below are the Python built-ins the source calls:
  \<^verbatim>\<open>str.split(sep)\<close>, \<^verbatim>\<open>str.replace(old, new)\<close>, \<^verbatim>\<open>str.strip()\<close>,
  \<^verbatim>\<open>str.join\<close>, \<^verbatim>\<open>str.lower()\<close> and \<^verbatim>\<open>str(len(...))\<close>.
  Output written with \<^verbatim>\<open>print\<close> is not part of the model.
\<close>

definition fence :: string where
  "fence = ''```''"

definition isspace :: "char \<Rightarrow> bool" where
  \<comment> \<open>The characters up to U+00FF for which Python's \<^verbatim>\<open>str.isspace\<close> holds; the
      last two are U+0085 and U+00A0.\<close>
  "isspace c = ((of_char c :: nat) \<in> {9, 10, 11, 12, 13, 28, 29, 30, 31, 32, 133, 160})"

definition strip :: "string \<Rightarrow> string" where
  "strip s = rev (dropWhile isspace (rev (dropWhile isspace s)))"

definition at_sep :: "string \<Rightarrow> string \<Rightarrow> bool" where
  \<comment> \<open>An occurrence of the non-empty text \<open>sep\<close> starts at the head of \<open>s\<close>.\<close>
  "at_sep sep s = (sep \<noteq> [] \<and> prefix sep s)"

text \<open>
  \<^verbatim>\<open>s.split(sep)\<close> scans from the left and cuts at every occurrence of \<open>sep\<close> that
  does not overlap the previous one; \<open>cur\<close> is the segment collected so far. Python
  raises \<^verbatim>\<open>ValueError\<close> for an empty separator; the only call in the source passes
  the literal fence, so the scan is defined for a non-empty separator.
\<close>

function split_scan :: "string \<Rightarrow> string \<Rightarrow> string \<Rightarrow> string list" where
  "split_scan sep cur [] = [cur]"
| "split_scan sep cur (c # cs) =
     (if at_sep sep (c # cs)
      then cur # split_scan sep [] (drop (length sep) (c # cs))
      else split_scan sep (cur @ [c]) cs)"
  by pat_completeness auto
termination
  by (relation "measure (\<lambda>(sep, cur, s). length s)") (auto simp: at_sep_def)

definition split_py :: "string \<Rightarrow> string \<Rightarrow> string list" where
  "split_py s sep = split_scan sep [] s"

text \<open>
  \<^verbatim>\<open>s.replace(old, new)\<close> replaces every non-overlapping occurrence of \<open>old\<close>,
  scanning from the left. With an empty \<open>old\<close> Python puts \<open>new\<close> before every
  character and at the end.
\<close>

function replace_scan :: "string \<Rightarrow> string \<Rightarrow> string \<Rightarrow> string" where
  "replace_scan old new [] = []"
| "replace_scan old new (c # cs) =
     (if at_sep old (c # cs)
      then new @ replace_scan old new (drop (length old) (c # cs))
      else c # replace_scan old new cs)"
  by pat_completeness auto
termination
  by (relation "measure (\<lambda>(old, new, s). length s)") (auto simp: at_sep_def)

definition replace_py :: "string \<Rightarrow> string \<Rightarrow> string \<Rightarrow> string" where
  "replace_py s old new =
     (if old = [] then new @ concat (map (\<lambda>c. c # new) s) else replace_scan old new s)"

fun join :: "string \<Rightarrow> string list \<Rightarrow> string" where
  "join sep [] = []"
| "join sep [x] = x"
| "join sep (x # y # zs) = x @ sep @ join sep (y # zs)"

text \<open>\<^verbatim>\<open>s.count(sep)\<close>: the number of non-overlapping occurrences, the cuts of the split.\<close>

function count_py :: "string \<Rightarrow> string \<Rightarrow> nat" where
  "count_py sep [] = 0"
| "count_py sep (c # cs) =
     (if at_sep sep (c # cs)
      then Suc (count_py sep (drop (length sep) (c # cs)))
      else count_py sep cs)"
  by pat_completeness auto
termination
  by (relation "measure (\<lambda>(sep, s). length s)") (auto simp: at_sep_def)

definition lower_char :: "char \<Rightarrow> char" where
  \<comment> \<open>The capitals \<open>A\<close> to \<open>Z\<close> and those of U+00C0 to U+00DE (U+00D7 is the
      multiplication sign) have their lower case 32 places further.\<close>
  "lower_char c =
     (if ((65::nat) \<le> of_char c \<and> of_char c \<le> (90::nat))
         \<or> ((192::nat) \<le> of_char c \<and> of_char c \<le> (222::nat) \<and> of_char c \<noteq> (215::nat))
      then char_of (of_char c + (32::nat)) else c)"

definition lower :: "string \<Rightarrow> string" where
  "lower s = map lower_char s"

text \<open>\<^verbatim>\<open>str(n)\<close> for a length: the decimal digits of a natural number.\<close>

fun str_nat :: "nat \<Rightarrow> string" where
  "str_nat n =
     (if n < 10 then [char_of (48 + n)] else str_nat (n div 10) @ [char_of (48 + n mod 10)])"

declare str_nat.simps [simp del]

section \<open>Statement extraction\<close>

text \<open>
  \<^verbatim>\<open>
  def extract_queries_from_response(response_content: str):
      chunks = response_content.split("```")
      queries = [chunk.replace("sql", "").strip()
                 for i, chunk in enumerate(chunks) if i % 2 != 0]
      return queries
  \<close>
\<close>

definition extract_queries_from_response :: "string \<Rightarrow> string list" where
  "extract_queries_from_response response_content =
     (let chunks = split_py response_content fence
      in [strip (replace_py chunk ''sql'' ''''). (i, chunk) \<leftarrow> List.enumerate 0 chunks, i mod 2 \<noteq> 0])"

text \<open>The segments at odd indices of a list, and the elements picked by alternating parity.\<close>

fun odds :: "'a list \<Rightarrow> 'a list" where
  "odds (x # y # zs) = y # odds zs"
| "odds _ = []"

fun pick :: "bool \<Rightarrow> 'a list \<Rightarrow> 'a list" where
  "pick b [] = []"
| "pick b (x # xs) = (if b then x # pick (\<not> b) xs else pick (\<not> b) xs)"

text \<open>
  What the specification asks of one fenced segment: remove the token \<open>sql\<close> only where
  it starts the segment, then strip. It is compared with what the source computes.
\<close>

definition strip_leading_tag :: "string \<Rightarrow> string" where
  "strip_leading_tag chunk =
     strip (if prefix ''sql'' chunk then drop (length ''sql'') chunk else chunk)"

section \<open>The collaborators\<close>

text \<open>
  The model API, the database connection and \<^verbatim>\<open>tabulate\<close> are libraries outside the
  repository; they are parameters of the model.
  \<^item> \<open>api n msgs\<close> is the outcome of the \<open>n\<close>-th network call of the session (counted
    from 0), made with the conversation \<open>msgs\<close>: \<open>Inl e\<close> when the call raises, \<open>Inr c\<close>
    when it returns a response whose content is \<open>c\<close>.
  \<^item> \<open>cursor sent q\<close> is the outcome of opening a cursor on the one connection, executing
    \<open>q\<close> and fetching all rows, when the statements \<open>sent\<close> have been sent on that
    connection before: \<open>Inl e\<close> when any of these raises, \<open>Inr rows\<close> otherwise. The
    state of the connection is the history of what it was sent.
  \<^item> \<open>tabulate rows\<close> is the table text for a list of rows in the plain format.
  A row is a list of pairs of column name and value (a \<^verbatim>\<open>RealDictRow\<close>).
\<close>

datatype role = System | User | Assistant

type_synonym message = "role \<times> string"

type_synonym 'v row = "(string \<times> 'v) list"

type_synonym api = "nat \<Rightarrow> message list \<Rightarrow> string + string"

type_synonym 'v cursor = "string list \<Rightarrow> string \<Rightarrow> string + 'v row list"

section \<open>The retry loop around the model call\<close>

text \<open>
  \<^verbatim>\<open>
  num_tries = 0
  response = None
  while num_tries < 4:
      try:
          response = Client(...).chat.completions.create(...)
          break
      except Exception as e:
          print(f"ERROR: {e}")
          num_tries += 1
          if num_tries >= 3:
              print("Giving up.")
              return
  \<close>
  The result carries the number of network calls made so far in the session. Leaving
  the loop through its condition would leave \<open>response\<close> at \<open>None\<close>.
\<close>

datatype call_result = Reply string | GiveUp | NoResponse

function call_gpt :: "api \<Rightarrow> message list \<Rightarrow> nat \<Rightarrow> nat \<Rightarrow> call_result \<times> nat" where
  "call_gpt api msgs num_tries calls =
     (if num_tries < 4
      then (case api calls msgs of
              Inr response \<Rightarrow> (Reply response, Suc calls)
            | Inl e \<Rightarrow>
                (if num_tries + 1 \<ge> 3 then (GiveUp, Suc calls)
                 else call_gpt api msgs (num_tries + 1) (Suc calls)))
      else (NoResponse, calls))"
  by pat_completeness auto
termination
  by (relation "measure (\<lambda>(api, msgs, num_tries, calls). 4 - num_tries)") auto

section \<open>Executing the statements of a reply\<close>

text \<open>
  \<^verbatim>\<open>
  for query in queries:
      try:
          with conn.cursor(cursor_factory=RealDictCursor) as cursor:
              cursor.execute(query)
              result = cursor.fetchall()
              ...
              result_string += f"\n\nI ran `{query}` and it returned {len(result)} rows. Here are the first few rows:\n{tabulate(result, headers='keys', tablefmt='plain')}\n"
      except Exception as e:
          print(f"Error: {e}")
          result_string += f"\nResult for `{query}` was an error: {e}\n"
  \<close>
\<close>

definition success_text :: "('v row list \<Rightarrow> string) \<Rightarrow> string \<Rightarrow> 'v row list \<Rightarrow> string" where
  "success_text tabulate query result =
     ''\<newline>\<newline>I ran `'' @ query @ ''` and it returned '' @ str_nat (length result)
       @ '' rows. Here are the first few rows:\<newline>'' @ tabulate result @ ''\<newline>''"

definition failure_text :: "string \<Rightarrow> string \<Rightarrow> string" where
  "failure_text query e =
     ''\<newline>Result for `'' @ query @ ''` was an error: '' @ e @ ''\<newline>''"

definition render :: "('v row list \<Rightarrow> string) \<Rightarrow> string \<Rightarrow> string + 'v row list \<Rightarrow> string" where
  "render tabulate query outcome =
     (case outcome of
        Inr result \<Rightarrow> success_text tabulate query result
      | Inl e \<Rightarrow> failure_text query e)"

fun run_queries ::
  "'v cursor \<Rightarrow> ('v row list \<Rightarrow> string) \<Rightarrow> string list \<Rightarrow> string \<times> string list
     \<Rightarrow> string \<times> string list" where
  "run_queries cursor tabulate [] (result_string, sent) = (result_string, sent)"
| "run_queries cursor tabulate (query # queries) (result_string, sent) =
     run_queries cursor tabulate queries
       (result_string @ render tabulate query (cursor sent query), sent @ [query])"

text \<open>
  The outcome of each statement of a list, in order: what the connection answers to
  the statement after everything before it has been sent.
\<close>

fun outcomes :: "'v cursor \<Rightarrow> string list \<Rightarrow> string list \<Rightarrow> (string + 'v row list) list" where
  "outcomes cursor sent [] = []"
| "outcomes cursor sent (query # queries) =
     cursor sent query # outcomes cursor (sent @ [query]) queries"

text \<open>
  The connection of the program. \<^verbatim>\<open>connect_db\<close> calls \<^verbatim>\<open>psycopg2.connect\<close> and
  leaves autocommit off, and the source calls neither \<^verbatim>\<open>commit\<close> nor
  \<^verbatim>\<open>rollback\<close>. On such a connection the first statement opens a transaction, and
  when a statement fails the server aborts the transaction and refuses every later
  statement until a rollback. \<open>server before q\<close> is what the database answers to \<open>q\<close>
  in a transaction that has not failed, after the statements \<open>before\<close>.
\<close>

definition aborted_message :: string where
  "aborted_message =
     ''current transaction is aborted, commands ignored until end of transaction block\<newline>''"

fun in_failed_transaction :: "'v cursor \<Rightarrow> string list \<Rightarrow> string list \<Rightarrow> bool" where
  "in_failed_transaction server before [] = False"
| "in_failed_transaction server before (q # rest) =
     (isl (server before q) \<or> in_failed_transaction server (before @ [q]) rest)"

definition psycopg2_connection :: "'v cursor \<Rightarrow> 'v cursor" where
  "psycopg2_connection server sent q =
     (if in_failed_transaction server [] sent then Inl aborted_message else server sent q)"

section \<open>The session\<close>

text \<open>
  The state of a session: the conversation, the statements sent on the connection, the
  number of network calls made, and the number of times \<^verbatim>\<open>conn.close()\<close> was called.
  The user's lines are a list; a prompt on the empty list is the end of the input,
  where \<^verbatim>\<open>prompt_toolkit.prompt\<close> raises and the process ends.
\<close>

record session =
  messages :: "message list"
  sent :: "string list"
  api_calls :: nat
  closes :: nat

datatype exit = Quit | GaveUp | Crashed | EndOfInput | InvalidTable | InitialQuit

text \<open>
  One turn up to the prompt (from \<^verbatim>\<open>print("Calling GPT...")\<close> to the end of the
  loop over the queries): either \<^verbatim>\<open>main\<close> is left, or the turn's \<open>result_string\<close>
  is ready.
\<close>

definition turn ::
  "api \<Rightarrow> 'v cursor \<Rightarrow> ('v row list \<Rightarrow> string) \<Rightarrow> session
     \<Rightarrow> (exit \<times> session) + (string \<times> session)" where
  "turn api cursor tabulate s =
     (case call_gpt api (messages s) 0 (api_calls s) of
        (GiveUp, n) \<Rightarrow> Inl (GaveUp, s\<lparr>api_calls := n\<rparr>)
      | (NoResponse, n) \<Rightarrow> Inl (Crashed, s\<lparr>api_calls := n\<rparr>)
      | (Reply response_content, n) \<Rightarrow>
          (let queries = extract_queries_from_response response_content;
               (result_string, sent') = run_queries cursor tabulate queries ('''', sent s)
           in Inr (result_string,
                   s\<lparr>messages := messages s @ [(Assistant, response_content)],
                     sent := sent', api_calls := n\<rparr>)))"

text \<open>
  \<^verbatim>\<open>
  while True:
      ...
      next_message = prompt_toolkit.prompt(...)
      if next_message.lower() == 'q':
          break
      messages.append({"role": "user", "content": f"\n{next_message}\n{result_string}"})
  conn.close()
  \<close>
\<close>

fun main_loop ::
  "api \<Rightarrow> 'v cursor \<Rightarrow> ('v row list \<Rightarrow> string) \<Rightarrow> string list \<Rightarrow> session
     \<Rightarrow> exit \<times> session" where
  "main_loop api cursor tabulate [] s =
     (case turn api cursor tabulate s of
        Inl left \<Rightarrow> left
      | Inr (result_string, s') \<Rightarrow> (EndOfInput, s'))"
| "main_loop api cursor tabulate (next_message # inputs) s =
     (case turn api cursor tabulate s of
        Inl left \<Rightarrow> left
      | Inr (result_string, s') \<Rightarrow>
          (if lower next_message = ''q'' then (Quit, s'\<lparr>closes := closes s' + 1\<rparr>)
           else main_loop api cursor tabulate inputs
                  (s'\<lparr>messages := messages s' @
                       [(User, ''\<newline>'' @ next_message @ ''\<newline>'' @ result_string)]\<rparr>)))"

definition system_prompt :: string where
  "system_prompt =
     ''You are a helpful assistant that writes SQL queries in order to answer questions about a database.''"

definition seed_prompt :: "string \<Rightarrow> string \<Rightarrow> string" where
  "seed_prompt schema_string initial_question =
     ''Hello, I have a database with the following schema:\<newline>\<newline>'' @ schema_string
     @ ''\<newline>\<newline>I'd like to work with you to answer a question I have. I can run several queries to get the answer, and tell you the results along the way. I'd like to use the fewest queries possible, so use joins where you can. If you're not sure what to do, you can ask me questions about the database or run intermediate queries to learn more about the data, but I can only run one query at a time.\<newline>\<newline>The question I have is:\<newline>\<newline>''
     @ [CHR 0x22] @ initial_question @ [CHR 0x22]"

text \<open>
  \<^verbatim>\<open>main\<close> from the first prompt on. The schema text, the set of table names and the
  statements already sent while reading the schema (\<open>introspection\<close>) are given.
\<close>

definition main ::
  "api \<Rightarrow> 'v cursor \<Rightarrow> ('v row list \<Rightarrow> string) \<Rightarrow> string \<Rightarrow> string set \<Rightarrow> string list
     \<Rightarrow> string list \<Rightarrow> exit \<times> session" where
  "main api cursor tabulate schema_string tables introspection inputs =
     (let s0 = \<lparr>messages = [], sent = introspection, api_calls = 0, closes = 0\<rparr>
      in case inputs of
           [] \<Rightarrow> (EndOfInput, s0)
         | selected_table # inputs1 \<Rightarrow>
             (if selected_table \<notin> tables then (InvalidTable, s0)
              else case inputs1 of
                     [] \<Rightarrow> (EndOfInput, s0)
                   | initial_question # inputs2 \<Rightarrow>
                       (if lower initial_question = ''q'' then (InitialQuit, s0)
                        else main_loop api cursor tabulate inputs2
                               (s0\<lparr>messages :=
                                    [(System, system_prompt),
                                     (User, seed_prompt schema_string initial_question)]\<rparr>))))"

section \<open>Describing the schema\<close>

text \<open>
  A row of the column catalog, as \<^verbatim>\<open>get_schema\<close> selects it. The sample rows are a
  dictionary from table name to \<^verbatim>\<open>None\<close> or a row; indexing it with a missing key
  raises \<^verbatim>\<open>KeyError\<close>. \<open>fmt\<close> is how a sample value is printed inside the f-string.
\<close>

record column =
  table_name :: string
  column_name :: string
  data_type :: string
  is_nullable :: string
  column_default :: "string option"

datatype error = KeyError string

text \<open>
  \<^verbatim>\<open>
  tables = {}
  for row in schema:
      table_name = row['table_name']
      if table_name not in tables:
          tables[table_name] = []
      tables[table_name].append(row)
  \<close>
  The dictionary keeps its keys in the order of insertion.
\<close>

definition add_row :: "(string \<times> column list) list \<Rightarrow> column \<Rightarrow> (string \<times> column list) list" where
  "add_row tables row =
     (let t = table_name row;
          tables' = (if t \<notin> fst ` set tables then tables @ [(t, [])] else tables)
      in map (\<lambda>(k, columns). if k = t then (k, columns @ [row]) else (k, columns)) tables')"

definition group_tables :: "column list \<Rightarrow> (string \<times> column list) list" where
  "group_tables schema = foldl add_row [] schema"

text \<open>
  \<^verbatim>\<open>
  example_value = 'N/A' if example_rows[table_name] is None
                  else example_rows[table_name].get(column['column_name'], 'N/A')
  \<close>
\<close>

definition sample_text :: "('v \<Rightarrow> string) \<Rightarrow> 'v row option \<Rightarrow> column \<Rightarrow> string" where
  "sample_text fmt sample column =
     (case sample of
        None \<Rightarrow> ''N/A''
      | Some r \<Rightarrow> (case map_of r (column_name column) of None \<Rightarrow> ''N/A'' | Some v \<Rightarrow> fmt v))"

definition example_value ::
  "('v \<Rightarrow> string) \<Rightarrow> (string \<rightharpoonup> 'v row option) \<Rightarrow> string \<Rightarrow> column \<Rightarrow> error + string" where
  "example_value fmt example_rows t column =
     (case example_rows t of
        None \<Rightarrow> Inl (KeyError t)
      | Some sample \<Rightarrow> Inr (sample_text fmt sample column))"

definition column_string :: "column \<Rightarrow> string \<Rightarrow> string" where
  "column_string column example =
     ''  '' @ column_name column @ '' '' @ data_type column @ '' ''
       @ (if is_nullable column = ''YES'' then ''NULL'' else ''NOT NULL'')
       @ ''; Example: '' @ example"

fun column_strings ::
  "('v \<Rightarrow> string) \<Rightarrow> (string \<rightharpoonup> 'v row option) \<Rightarrow> string \<Rightarrow> column list
     \<Rightarrow> error + string list" where
  "column_strings fmt example_rows t [] = Inr []"
| "column_strings fmt example_rows t (column # columns) =
     (case example_value fmt example_rows t column of
        Inl e \<Rightarrow> Inl e
      | Inr example \<Rightarrow>
          (case column_strings fmt example_rows t columns of
             Inl e \<Rightarrow> Inl e
           | Inr strings \<Rightarrow> Inr (column_string column example # strings)))"

fun table_strings ::
  "('v \<Rightarrow> string) \<Rightarrow> (string \<rightharpoonup> 'v row option) \<Rightarrow> (string \<times> column list) list
     \<Rightarrow> error + string list" where
  "table_strings fmt example_rows [] = Inr []"
| "table_strings fmt example_rows ((t, columns) # tables) =
     (case column_strings fmt example_rows t columns of
        Inl e \<Rightarrow> Inl e
      | Inr strings \<Rightarrow>
          (case table_strings fmt example_rows tables of
             Inl e \<Rightarrow> Inl e
           | Inr rest \<Rightarrow> Inr ((''Table '' @ t @ '':\<newline>'' @ join ''\<newline>'' strings) # rest)))"

definition format_schema ::
  "('v \<Rightarrow> string) \<Rightarrow> column list \<Rightarrow> (string \<rightharpoonup> 'v row option) \<Rightarrow> error + string" where
  "format_schema fmt schema example_rows =
     (case table_strings fmt example_rows (group_tables schema) of
        Inl e \<Rightarrow> Inl e
      | Inr strings \<Rightarrow> Inr (join ''\<newline>\<newline>'' strings))"

section \<open>Supporting facts\<close>

subsection \<open>Facts about the primitives and the extraction\<close>

lemma enum_pick:
  "[f x. (i, x) \<leftarrow> List.enumerate n xs, i mod 2 = Suc 0] = map f (pick (odd n) xs)"
  by (induction xs arbitrary: n) (auto simp: odd_iff_mod_2_eq_one)

lemma pick_odds: "pick False xs = odds xs"
  by (induction xs rule: odds.induct) auto

lemma extract_odds:
  "extract_queries_from_response r =
     map (\<lambda>chunk. strip (replace_py chunk ''sql'' '''')) (odds (split_py r fence))"
  by (simp add: extract_queries_from_response_def enum_pick pick_odds)

lemma length_odds: "length (odds xs) = length xs div 2"
  by (induction xs rule: odds.induct) auto

lemma nth_odds: "2 * i + 1 < length xs \<Longrightarrow> odds xs ! i = xs ! (2 * i + 1)"
proof (induction xs arbitrary: i rule: odds.induct)
  case (1 x y zs)
  then show ?case by (cases i) auto
qed auto

lemma last_odds:
  "xs \<noteq> [] \<Longrightarrow> even (length xs) \<Longrightarrow> odds xs \<noteq> [] \<and> last (odds xs) = last xs"
proof (induction xs rule: odds.induct)
  case (1 x y zs)
  then show ?case by (cases zs) auto
qed auto

lemma at_sep_sublist: "at_sep sep s \<Longrightarrow> sublist sep s"
  by (simp add: at_sep_def prefix_imp_sublist)

lemma at_sep_drop: "at_sep sep s \<Longrightarrow> s = sep @ drop (length sep) s"
  by (auto simp: at_sep_def prefix_def)

lemma split_scan_no_sep:
  "\<not> sublist sep s \<Longrightarrow> split_scan sep cur s = [cur @ s]"
proof (induction sep cur s rule: split_scan.induct)
  case (2 sep cur c cs)
  from "2.prems" have np: "\<not> at_sep sep (c # cs)"
    by (auto dest: at_sep_sublist)
  from "2.prems" have "\<not> sublist sep cs"
    by (simp add: sublist_Cons_right)
  with "2.IH"(2) np show ?case by simp
qed simp

lemma split_scan_length:
  "length (split_scan sep cur s) = Suc (count_py sep s)"
proof (induction sep cur s rule: split_scan.induct)
  case (2 sep cur c cs)
  show ?case
  proof (cases "at_sep sep (c # cs)")
    case True
    with "2.IH"(1) show ?thesis by simp
  next
    case False
    with "2.IH"(2) show ?thesis by simp
  qed
qed simp

lemma split_scan_ne: "split_scan sep cur s \<noteq> []"
proof (induction sep cur s rule: split_scan.induct)
  case (2 sep cur c cs)
  then show ?case by (cases "at_sep sep (c # cs)") simp_all
qed simp

lemma join_Cons: "xs \<noteq> [] \<Longrightarrow> join sep (x # xs) = x @ sep @ join sep xs"
  by (cases xs) auto

lemma join_split_scan:
  "join sep (split_scan sep cur s) = cur @ s"
proof (induction sep cur s rule: split_scan.induct)
  case (2 sep cur c cs)
  show ?case
  proof (cases "at_sep sep (c # cs)")
    case True
    have "join sep (split_scan sep cur (c # cs)) =
            cur @ sep @ join sep (split_scan sep [] (drop (length sep) (c # cs)))"
      using True by (simp add: join_Cons split_scan_ne)
    also have "\<dots> = cur @ sep @ drop (length sep) (c # cs)"
      using "2.IH"(1) True by simp
    also have "\<dots> = cur @ (c # cs)"
      using at_sep_drop [OF True] by simp
    finally show ?thesis .
  next
    case False
    with "2.IH"(2) show ?thesis by simp
  qed
qed simp

lemma join_butlast:
  "butlast xs \<noteq> [] \<Longrightarrow> join sep xs = join sep (butlast xs) @ sep @ last xs"
proof (induction sep xs rule: join.induct)
  case (3 sep x y zs)
  then show ?case by (cases zs) auto
qed auto

lemma split_scan_last_clean:
  "sep \<noteq> [] \<Longrightarrow> \<forall>k < length cur. \<not> prefix sep (drop k (cur @ s)) \<Longrightarrow>
     \<not> sublist sep (last (split_scan sep cur s))"
proof (induction sep cur s rule: split_scan.induct)
  case (1 sep cur)
  show ?case
  proof
    assume "sublist sep (last (split_scan sep cur []))"
    then obtain ps ss where e: "cur = ps @ sep @ ss" by (auto simp: sublist_def)
    with 1 have "length ps < length cur" by auto
    moreover have "prefix sep (drop (length ps) (cur @ []))" using e by simp
    ultimately show False using 1 by blast
  qed
next
  case (2 sep cur c cs)
  show ?case
  proof (cases "at_sep sep (c # cs)")
    case True
    with "2.IH"(1) "2.prems"(1) show ?thesis by (simp add: split_scan_ne)
  next
    case False
    with "2.prems"(1) have np: "\<not> prefix sep (c # cs)" by (simp add: at_sep_def)
    have "\<forall>k < length (cur @ [c]). \<not> prefix sep (drop k ((cur @ [c]) @ cs))"
    proof (intro allI impI)
      fix k assume "k < length (cur @ [c])"
      then consider "k < length cur" | "k = length cur" by fastforce
      then show "\<not> prefix sep (drop k ((cur @ [c]) @ cs))"
      proof cases
        case 1 with "2.prems"(2) show ?thesis by simp
      next
        case 2 with np show ?thesis by simp
      qed
    qed
    with "2.IH"(2) "2.prems"(1) False show ?thesis by simp
  qed
qed

lemma split_py_length: "length (split_py r sep) = Suc (count_py sep r)"
  by (simp add: split_py_def split_scan_length)

lemma split_py_join: "join sep (split_py r sep) = r"
  by (simp add: split_py_def join_split_scan)

lemma split_py_last_clean: "sep \<noteq> [] \<Longrightarrow> \<not> sublist sep (last (split_py r sep))"
  by (simp add: split_py_def split_scan_last_clean)

lemma extract_length:
  "length (extract_queries_from_response r) = length (split_py r fence) div 2"
  by (simp add: extract_odds length_odds)

lemma extract_nth:
  "2 * i + 1 < length (split_py r fence) \<Longrightarrow>
     extract_queries_from_response r ! i =
       strip (replace_py (split_py r fence ! (2 * i + 1)) ''sql'' '''')"
proof -
  assume a: "2 * i + 1 < length (split_py r fence)"
  then have "i < length (odds (split_py r fence))"
    by (simp add: length_odds)
  with a show ?thesis
    by (simp add: extract_odds nth_odds)
qed

lemma isspace_s: "\<not> isspace (CHR ''s'')"
  by (simp add: isspace_def)

lemma replace_scan_blank:
  "\<forall>c \<in> set s. isspace c \<Longrightarrow> replace_scan ''sql'' new s = s"
proof (induction s)
  case (Cons c cs)
  then have "c \<noteq> CHR ''s''"
    using isspace_s by auto
  then have "\<not> at_sep ''sql'' (c # cs)"
    by (simp add: at_sep_def)
  with Cons show ?case by simp
qed simp

lemma strip_blank: "\<forall>c \<in> set s. isspace c \<Longrightarrow> strip s = []"
  by (auto simp: strip_def dest: set_dropWhileD)

lemma strip_empty_blank: "strip s = [] \<Longrightarrow> \<forall>c \<in> set s. isspace c"
proof -
  assume "strip s = []"
  then have a: "\<forall>c \<in> set (dropWhile isspace s). isspace c"
    by (simp add: strip_def)
  have "dropWhile isspace s = []"
  proof (rule ccontr)
    assume ne: "dropWhile isspace s \<noteq> []"
    then have "\<not> isspace (hd (dropWhile isspace s))"
      by (rule hd_dropWhile)
    moreover have "hd (dropWhile isspace s) \<in> set (dropWhile isspace s)"
      using ne by simp
    ultimately show False
      using a by blast
  qed
  then show ?thesis
    by (simp add: dropWhile_eq_Nil_conv)
qed

lemma leading_tag_empty_clean:
  assumes "strip_leading_tag seg = []"
  shows "strip (replace_py seg ''sql'' '''') = []"
proof (cases "prefix ''sql'' seg")
  case True
  then obtain rest where seg: "seg = ''sql'' @ rest"
    by (auto simp: prefix_def)
  with assms have "strip rest = []"
    by (simp add: strip_leading_tag_def)
  then have b: "\<forall>c \<in> set rest. isspace c"
    by (rule strip_empty_blank)
  have "replace_scan ''sql'' [] (''sql'' @ rest) = replace_scan ''sql'' [] rest"
    by (simp add: at_sep_def)
  also have "\<dots> = rest"
    using b by (rule replace_scan_blank)
  finally have "replace_py seg ''sql'' '''' = rest"
    using seg by (simp add: replace_py_def)
  with b show ?thesis
    by (simp add: strip_blank)
next
  case False
  with assms have "strip seg = []"
    by (simp add: strip_leading_tag_def)
  then have b: "\<forall>c \<in> set seg. isspace c"
    by (rule strip_empty_blank)
  then have "replace_py seg ''sql'' '''' = seg"
    by (simp add: replace_py_def replace_scan_blank)
  with b show ?thesis
    by (simp add: strip_blank)
qed

subsection \<open>Facts about the retry loop\<close>

lemma call_gpt_first_success:
  "api calls msgs = Inr response \<Longrightarrow> call_gpt api msgs 0 calls = (Reply response, Suc calls)"
  by simp

lemma call_gpt_calls_le:
  "num_tries \<le> 2 \<Longrightarrow> snd (call_gpt api msgs num_tries calls) \<le> calls + (3 - num_tries)"
proof (induction api msgs num_tries calls rule: call_gpt.induct)
  case (1 api msgs num_tries calls)
  show ?case
  proof (cases "api calls msgs")
    case (Inr response)
    with "1.prems" show ?thesis by simp
  next
    case (Inl e)
    show ?thesis
    proof (cases "num_tries + 1 \<ge> 3")
      case True
      with Inl "1.prems" show ?thesis by simp
    next
      case False
      then have "snd (call_gpt api msgs (num_tries + 1) (Suc calls)) \<le> Suc calls + (3 - (num_tries + 1))"
        using "1.IH" [OF _ Inl] "1.prems" by simp
      with Inl False "1.prems" show ?thesis by simp
    qed
  qed
qed

lemma call_gpt_never_no_response:
  "num_tries \<le> 2 \<Longrightarrow> fst (call_gpt api msgs num_tries calls) \<noteq> NoResponse"
proof (induction api msgs num_tries calls rule: call_gpt.induct)
  case (1 api msgs num_tries calls)
  show ?case
  proof (cases "api calls msgs")
    case (Inr response)
    with "1.prems" show ?thesis by simp
  next
    case (Inl e)
    show ?thesis
    proof (cases "num_tries + 1 \<ge> 3")
      case True
      with Inl "1.prems" show ?thesis by simp
    next
      case False
      then have "fst (call_gpt api msgs (num_tries + 1) (Suc calls)) \<noteq> NoResponse"
        using "1.IH" [OF _ Inl] "1.prems" by simp
      with Inl False "1.prems" show ?thesis by simp
    qed
  qed
qed

subsection \<open>Facts about the loop over the statements\<close>

lemma run_queries_eq:
  "run_queries cursor tabulate queries (result_string, snt) =
     (result_string @ concat (map2 (render tabulate) queries (outcomes cursor snt queries)),
      snt @ queries)"
  by (induction queries arbitrary: result_string snt) simp_all

lemma outcomes_length: "length (outcomes cursor snt queries) = length queries"
  by (induction queries arbitrary: snt) simp_all

lemma outcomes_nth:
  "i < length queries \<Longrightarrow>
     outcomes cursor snt queries ! i = cursor (snt @ take i queries) (queries ! i)"
proof (induction queries arbitrary: snt i)
  case (Cons q qs)
  then show ?case by (cases i) simp_all
qed simp

subsection \<open>Facts about the session\<close>

lemma turn_closes_left:
  "turn api cursor tabulate s = Inl (x, s') \<Longrightarrow> closes s' = closes s \<and> x \<noteq> Quit"
  by (auto simp: turn_def split: prod.splits call_result.splits)

lemma turn_closes_on:
  "turn api cursor tabulate s = Inr (result_string, s') \<Longrightarrow> closes s' = closes s"
  by (auto simp: turn_def split: prod.splits call_result.splits)

lemma main_loop_closes:
  "main_loop api cursor tabulate inputs s = (x, s') \<Longrightarrow>
     closes s' = closes s + (if x = Quit then 1 else 0)"
proof (induction inputs arbitrary: s)
  case Nil
  then show ?case
    by (auto split: sum.splits dest: turn_closes_left turn_closes_on)
next
  case (Cons next_message inputs)
  show ?case
  proof (cases "turn api cursor tabulate s")
    case (Inl left)
    with Cons.prems have "turn api cursor tabulate s = Inl (x, s')" by simp
    then show ?thesis using turn_closes_left by fastforce
  next
    case (Inr on)
    obtain result_string s1 where on: "on = (result_string, s1)" by (cases on)
    with Inr have c1: "closes s1 = closes s" using turn_closes_on by fastforce
    show ?thesis
    proof (cases "lower next_message = ''q''")
      case True
      with Inr on Cons.prems c1 show ?thesis by auto
    next
      case False
      let ?s2 = "s1\<lparr>messages := messages s1 @
                   [(User, ''\<newline>'' @ next_message @ ''\<newline>'' @ result_string)]\<rparr>"
      from Inr on False Cons.prems
      have "main_loop api cursor tabulate inputs ?s2 = (x, s')" by simp
      from Cons.IH [OF this] c1 show ?thesis by simp
    qed
  qed
qed

lemma main_closes:
  "main api cursor tabulate schema_string tables introspection inputs = (x, s) \<Longrightarrow>
     closes s = (if x = Quit then 1 else 0)"
  by (auto simp: main_def Let_def split: list.splits if_splits dest!: main_loop_closes)

subsection \<open>Facts about the schema description\<close>

lemma add_row_keys:
  "fst ` set (add_row tables row) = insert (table_name row) (fst ` set tables)"
  by (force simp: add_row_def Let_def image_iff split: if_splits)

lemma add_row_nonempty:
  "\<forall>(t, columns) \<in> set tables. columns \<noteq> [] \<Longrightarrow>
     \<forall>(t, columns) \<in> set (add_row tables row). columns \<noteq> []"
  by (auto simp: add_row_def Let_def split: if_splits)

lemma group_keys_aux:
  "fst ` set (foldl add_row tables schema) = fst ` set tables \<union> table_name ` set schema"
  by (induction schema arbitrary: tables) (simp_all add: add_row_keys)

lemma group_nonempty_aux:
  "\<forall>(t, columns) \<in> set tables. columns \<noteq> [] \<Longrightarrow>
     \<forall>(t, columns) \<in> set (foldl add_row tables schema). columns \<noteq> []"
proof (induction schema arbitrary: tables)
  case (Cons row schema)
  from Cons.IH [OF add_row_nonempty [OF Cons.prems]] show ?case by simp
qed simp

lemma group_tables_keys: "fst ` set (group_tables schema) = table_name ` set schema"
  by (simp add: group_tables_def group_keys_aux)

lemma group_tables_nonempty: "\<forall>(t, columns) \<in> set (group_tables schema). columns \<noteq> []"
  unfolding group_tables_def by (rule group_nonempty_aux) simp






lemma column_strings_present:
  "example_rows t = Some sample \<Longrightarrow>
     column_strings fmt example_rows t columns =
       Inr (map (\<lambda>c. column_string c (sample_text fmt sample c)) columns)"
  by (induction columns) (simp_all add: example_value_def)

lemma column_strings_missing:
  "example_rows t = None \<Longrightarrow> columns \<noteq> [] \<Longrightarrow>
     column_strings fmt example_rows t columns = Inl (KeyError t)"
  by (cases columns) (simp_all add: example_value_def)


lemma table_strings_missing:
  "\<forall>(t, columns) \<in> set tables. columns \<noteq> [] \<Longrightarrow>
   \<exists>(t, columns) \<in> set tables. t \<notin> dom example_rows \<Longrightarrow>
     \<exists>t. table_strings fmt example_rows tables = Inl (KeyError t) \<and>
         t \<notin> dom example_rows \<and> t \<in> fst ` set tables"
proof (induction tables)
  case (Cons p tables)
  obtain t columns where p: "p = (t, columns)" by (cases p)
  with Cons.prems(1) have ne: "columns \<noteq> []" by simp
  show ?case
  proof (cases "example_rows t")
    case None
    with p ne have "table_strings fmt example_rows (p # tables) = Inl (KeyError t)"
      by (simp add: column_strings_missing)
    with None p show ?thesis by (auto simp: domIff)
  next
    case (Some sample)
    with Cons.prems(2) p have "\<exists>(t, columns) \<in> set tables. t \<notin> dom example_rows"
      by (auto simp: domIff)
    moreover from Cons.prems(1) have "\<forall>(t, columns) \<in> set tables. columns \<noteq> []" by simp
    ultimately obtain t' where
      "table_strings fmt example_rows tables = Inl (KeyError t')" and
      "t' \<notin> dom example_rows" and "t' \<in> fst ` set tables"
      using Cons.IH by blast
    with p Some show ?thesis by (auto simp: column_strings_present)
  qed
qed simp


section \<open>The claims\<close>

subsection \<open>C1: the retry policy of the model call\<close>

text \<open>
  C1 says that the model call is made once when the first attempt succeeds and that,
  when the attempts fail, up to 4 calls are made (3 retries after the first failure)
  before the session ends. The loop of \<^verbatim>\<open>main\<close> is bounded by \<open>num_tries < 4\<close>, but
  it returns as soon as \<open>num_tries >= 3\<close>: with a transport that fails three times and
  would answer the fourth call, the session gives up after the third call and the
  fourth is never made.
\<close>

theorem call_gpt_gives_up_after_third_failure:
  "call_gpt (\<lambda>n msgs. if n < 3 then Inl ''timeout'' else Inr ''SELECT 1'') msgs 0 0 = (GiveUp, 3)"
  by (simp add: numeral_3_eq_3)

subsection \<open>C2: what is removed from a fenced segment\<close>

text \<open>
  C2 says that each candidate is its fenced segment with only a leading \<open>sql\<close> tag
  removed and the surrounding whitespace stripped. The source calls
  \<^verbatim>\<open>chunk.replace("sql", "")\<close>, which removes the token wherever it occurs: for a
  reply whose statement names the table \<open>mysql_users\<close>, the candidate names
  \<open>my_users\<close>, where removing the leading tag only keeps the statement as written.
\<close>

theorem extract_removes_sql_inside_statement:
  "extract_queries_from_response ''```sql\<newline>SELECT * FROM mysql_users;\<newline>```''
     = [''SELECT * FROM my_users;'']
   \<and> map strip_leading_tag (odds (split_py ''```sql\<newline>SELECT * FROM mysql_users;\<newline>```'' fence))
     = [''SELECT * FROM mysql_users;'']"
  by code_simp

subsection \<open>C3: a statement after a failed statement\<close>

text \<open>
  C3 says that each candidate is attempted in list order with its own outcome, and that
  a statement that fails does not prevent a later statement of the list from executing
  and succeeding. The loop does send every candidate in order and adds one rendering
  per candidate (\<open>run_queries_eq\<close>, \<open>outcomes_length\<close>, \<open>outcomes_nth\<close>), but it
  catches the error of a statement without a rollback. On the connection of the
  program, a statement that the database answers with rows on its own is refused after
  a failed one: for a reply with a statement on a missing table followed by a count,
  the feedback holds two errors, the second one the aborted transaction.
\<close>

theorem failed_statement_blocks_later_statement:
  "run_queries
     (psycopg2_connection
        (\<lambda>before q. if q = ''SELECT * FROM nope'' then Inl ''relation nope does not exist''
                     else Inr [[(''count'', 42::nat)]]))
     tabulate [''SELECT * FROM nope'', ''SELECT count(*) FROM users;''] ('''', [])
   = (''\<newline>Result for `SELECT * FROM nope` was an error: relation nope does not exist\<newline>''
        @ ''\<newline>Result for `SELECT count(*) FROM users;` was an error: '' @ aborted_message
        @ ''\<newline>'',
      [''SELECT * FROM nope'', ''SELECT count(*) FROM users;''])
   \<and> psycopg2_connection
        (\<lambda>before q. if q = ''SELECT * FROM nope'' then Inl ''relation nope does not exist''
                     else Inr [[(''count'', 42::nat)]])
        [] ''SELECT count(*) FROM users;''
     = Inr [[(''count'', 42)]]"
  by (simp add: psycopg2_connection_def render_def failure_text_def)

subsection \<open>C4: closing the connection\<close>

text \<open>
  C4 says that the connection is closed exactly once on every path that ends the
  session. \<^verbatim>\<open>conn.close()\<close> is reached only through the \<^verbatim>\<open>break\<close> of the quit
  signal; the \<^verbatim>\<open>return\<close> after the third failed model call leaves \<^verbatim>\<open>main\<close>
  without it. When every model call fails, the session ends in \<open>GaveUp\<close> and the
  connection was closed zero times.
\<close>

theorem give_up_leaves_connection_open:
  "fst (main (\<lambda>n msgs. Inl ''timeout'') cursor tabulate schema_string {''studies''} introspection
          [''studies'', ''How many studies are there?'']) = GaveUp
   \<and> closes (snd (main (\<lambda>n msgs. Inl ''timeout'') cursor tabulate schema_string {''studies''}
          introspection [''studies'', ''How many studies are there?''])) = 0"
  by (simp add: main_def turn_def lower_def numeral_3_eq_3)

subsection \<open>C5: empty candidates\<close>

text \<open>
  C5, as stated, says that a fenced segment that is empty after stripping contributes
  no candidate. The comprehension of the source has no such filter: a fence around a
  blank yields one candidate, the empty string.
\<close>

theorem extract_blank_fence_counterexample:
  "extract_queries_from_response ''Nothing to run: ```  ``` sorry'' = ['''']"
  by code_simp

text \<open>
  C5, amended: a fenced segment (a segment at an odd index of the split) whose text is
  empty after stripping the language tag and the whitespace is kept: it contributes the
  empty string as the candidate at its position. This covers the empty fence, the fence
  around whitespace and the fence around the tag alone.
\<close>

theorem extract_keeps_empty_candidate:
  assumes "2 * i + 1 < length (split_py r fence)"
    and "strip_leading_tag (split_py r fence ! (2 * i + 1)) = ''''"
  shows "i < length (extract_queries_from_response r) \<and> extract_queries_from_response r ! i = ''''"
proof -
  from assms(1) have "i < length (extract_queries_from_response r)"
    by (simp add: extract_length)
  moreover from assms(2)
  have "strip (replace_py (split_py r fence ! (2 * i + 1)) ''sql'' '''') = ''''"
    by (rule leading_tag_empty_clean)
  ultimately show ?thesis
    using assms(1) by (simp add: extract_nth)
qed

theorem extract_keeps_empty_candidate_witness:
  "2 * 0 + 1 < length (split_py ''Run ```sql\<newline>``` now'' fence)
   \<and> strip_leading_tag (split_py ''Run ```sql\<newline>``` now'' fence ! (2 * 0 + 1)) = ''''
   \<and> (0::nat) < length (extract_queries_from_response ''Run ```sql\<newline>``` now'')
   \<and> extract_queries_from_response ''Run ```sql\<newline>``` now'' ! 0 = ''''"
proof -
  have s: "split_py ''Run ```sql\<newline>``` now'' fence = [''Run '', ''sql\<newline>'', '' now'']"
    by code_simp
  have t: "strip_leading_tag ''sql\<newline>'' = ''''"
    by code_simp
  have h1: "2 * 0 + 1 < length (split_py ''Run ```sql\<newline>``` now'' fence)"
    by (simp add: s)
  have h2: "strip_leading_tag (split_py ''Run ```sql\<newline>``` now'' fence ! (2 * 0 + 1)) = ''''"
    by (simp add: s t)
  from extract_keeps_empty_candidate [OF h1 h2] h1 h2 show ?thesis
    by simp
qed

subsection \<open>C6: the feedback text\<close>

text \<open>
  C6 says that the feedback for a successful statement holds the row count and a table
  of at most a bounded preview of the rows, and for a failed one the statement and the
  error message. The text announces \<open>the first few rows\<close>, but the source hands the
  whole of \<^verbatim>\<open>cursor.fetchall()\<close> to \<^verbatim>\<open>tabulate\<close>: whatever the number of rows of
  \<open>result\<close>, the feedback holds the table of all of them.
\<close>

theorem feedback_renders_every_row:
  "run_queries (\<lambda>snt q. Inr result) tabulate [query] ('''', snt) =
     (''\<newline>\<newline>I ran `'' @ query @ ''` and it returned '' @ str_nat (length result)
        @ '' rows. Here are the first few rows:\<newline>'' @ tabulate result @ ''\<newline>'',
      snt @ [query])"
  by (simp add: render_def success_text_def)

subsection \<open>C7: a reply without a fence\<close>

text \<open>
  C7: when the reply of the model holds no fence delimiter, no candidate is extracted,
  nothing is sent to the connection, the feedback of the turn is empty, and the session
  goes on to the next line of the user: unless that line is the quit signal, the next
  turn starts with the conversation extended by the reply and by the user's line with
  no feedback after it.
\<close>

theorem no_fence_turn:
  assumes "\<not> sublist fence response_content"
    and "call_gpt api (messages s) 0 (api_calls s) = (Reply response_content, n)"
  shows "extract_queries_from_response response_content = []
   \<and> run_queries cursor tabulate (extract_queries_from_response response_content) ('''', sent s)
       = ('''', sent s)
   \<and> turn api cursor tabulate s =
       Inr ('''', s\<lparr>messages := messages s @ [(Assistant, response_content)], api_calls := n\<rparr>)
   \<and> main_loop api cursor tabulate (next_message # inputs) s =
       (if lower next_message = ''q''
        then (Quit, s\<lparr>messages := messages s @ [(Assistant, response_content)],
                      api_calls := n, closes := closes s + 1\<rparr>)
        else main_loop api cursor tabulate inputs
               (s\<lparr>api_calls := n,
                  messages := messages s @
                    [(Assistant, response_content), (User, ''\<newline>'' @ next_message @ ''\<newline>'')]\<rparr>))"
proof -
  from assms(1) have "split_py response_content fence = [response_content]"
    by (simp add: split_py_def split_scan_no_sep)
  then have e: "extract_queries_from_response response_content = []"
    by (simp add: extract_odds)
  have t: "turn api cursor tabulate s =
       Inr ('''', s\<lparr>messages := messages s @ [(Assistant, response_content)], api_calls := n\<rparr>)"
    using assms(2) e by (simp add: turn_def)
  show ?thesis
    using e t by simp
qed

theorem no_fence_turn_witness:
  "\<not> sublist fence ''Which table do you mean?''
   \<and> call_gpt (\<lambda>n msgs. Inr ''Which table do you mean?'')
        (messages \<lparr>messages = [(User, ''hello'')], sent = [], api_calls = 0, closes = 0\<rparr>) 0
        (api_calls \<lparr>messages = [(User, ''hello'')], sent = [], api_calls = 0, closes = 0\<rparr>)
       = (Reply ''Which table do you mean?'', 1)
   \<and> extract_queries_from_response ''Which table do you mean?'' = []
   \<and> turn (\<lambda>n msgs. Inr ''Which table do you mean?'')
        (\<lambda>snt q. Inl ''unused'' :: string + nat row list) (\<lambda>rows. '''')
        \<lparr>messages = [(User, ''hello'')], sent = [], api_calls = 0, closes = 0\<rparr>
       = Inr ('''', \<lparr>messages = [(User, ''hello''), (Assistant, ''Which table do you mean?'')],
                     sent = [], api_calls = 1, closes = 0\<rparr>)"
proof -
  have h1: "\<not> sublist fence ''Which table do you mean?''"
    by code_simp
  have h2: "call_gpt (\<lambda>n msgs. Inr ''Which table do you mean?'')
        (messages \<lparr>messages = [(User, ''hello'')], sent = [], api_calls = 0, closes = 0\<rparr>) 0
        (api_calls \<lparr>messages = [(User, ''hello'')], sent = [], api_calls = 0, closes = 0\<rparr>)
       = (Reply ''Which table do you mean?'', 1)"
    by simp
  from no_fence_turn [OF h1 h2, of "\<lambda>snt q. Inl ''unused'' :: string + nat row list" "\<lambda>rows. ''''"]
    h1 h2 show ?thesis
    by simp
qed

subsection \<open>C8: an unterminated fence\<close>

text \<open>
  C8: when the reply holds an odd number of fence delimiters, the text after the last
  delimiter is the last segment of the split, it sits at an odd index, and it is
  extracted like every other fenced segment: the last candidate is that text with the
  token removed and the whitespace stripped.
\<close>

theorem unterminated_fence_extracted:
  assumes "odd (count_py fence r)"
  shows "odd (length (split_py r fence) - 1)
   \<and> (\<exists>before. r = before @ fence @ last (split_py r fence))
   \<and> \<not> sublist fence (last (split_py r fence))
   \<and> extract_queries_from_response r \<noteq> []
   \<and> last (extract_queries_from_response r)
       = strip (replace_py (last (split_py r fence)) ''sql'' '''')"
proof -
  have len: "length (split_py r fence) = Suc (count_py fence r)"
    by (rule split_py_length)
  with assms have ev: "even (length (split_py r fence))" by simp
  from len have ne: "split_py r fence \<noteq> []" by auto
  from len assms have "2 \<le> length (split_py r fence)"
    by (cases "count_py fence r") auto
  then have bl: "butlast (split_py r fence) \<noteq> []"
    by (cases "split_py r fence" rule: rev_cases) auto
  have "r = join fence (split_py r fence)"
    by (simp add: split_py_join)
  also have "\<dots> = join fence (butlast (split_py r fence)) @ fence @ last (split_py r fence)"
    using bl by (rule join_butlast)
  finally have dec: "\<exists>before. r = before @ fence @ last (split_py r fence)" by blast
  have clean: "\<not> sublist fence (last (split_py r fence))"
    by (rule split_py_last_clean) (simp add: fence_def)
  from last_odds [OF ne ev]
  have o: "odds (split_py r fence) \<noteq> []" "last (odds (split_py r fence)) = last (split_py r fence)"
    by simp_all
  have "extract_queries_from_response r \<noteq> []"
    using o(1) by (simp add: extract_odds)
  moreover have "last (extract_queries_from_response r)
       = strip (replace_py (last (split_py r fence)) ''sql'' '''')"
    using o by (simp add: extract_odds last_map)
  moreover have "odd (length (split_py r fence) - 1)"
    using len assms by simp
  ultimately show ?thesis
    using dec clean by blast
qed

theorem unterminated_fence_extracted_witness:
  "odd (count_py fence ''Try this: ```sql\<newline>SELECT 1'')
   \<and> last (split_py ''Try this: ```sql\<newline>SELECT 1'' fence) = ''sql\<newline>SELECT 1''
   \<and> last (extract_queries_from_response ''Try this: ```sql\<newline>SELECT 1'') = ''SELECT 1''"
proof -
  have h: "odd (count_py fence ''Try this: ```sql\<newline>SELECT 1'')"
    by code_simp
  have s: "last (split_py ''Try this: ```sql\<newline>SELECT 1'' fence) = ''sql\<newline>SELECT 1''"
    by code_simp
  have c: "strip (replace_py ''sql\<newline>SELECT 1'' ''sql'' '''') = ''SELECT 1''"
    by code_simp
  from unterminated_fence_extracted [OF h] h s c show ?thesis
    by simp
qed

subsection \<open>C9: the placeholder for a missing sample value\<close>



subsection \<open>C10: a table without an entry in the sample rows\<close>

text \<open>
  C10: when the catalog names a table that is not a key of the sample rows, the schema
  description is not produced: indexing the sample rows raises \<^verbatim>\<open>KeyError\<close> for a
  table of the catalog that has no entry.
\<close>

theorem format_schema_missing_key:
  assumes "r \<in> set schema" and "table_name r \<notin> dom example_rows"
  shows "\<exists>t. format_schema fmt schema example_rows = Inl (KeyError t)
     \<and> t \<notin> dom example_rows \<and> t \<in> table_name ` set schema"
proof -
  from assms(1) have "table_name r \<in> fst ` set (group_tables schema)"
    by (simp add: group_tables_keys)
  with assms(2) have "\<exists>(t, columns) \<in> set (group_tables schema). t \<notin> dom example_rows"
    by force
  from table_strings_missing [OF group_tables_nonempty this, of fmt] obtain t where
    "table_strings fmt example_rows (group_tables schema) = Inl (KeyError t)" and
    "t \<notin> dom example_rows" and "t \<in> fst ` set (group_tables schema)"
    by blast
  then show ?thesis
    by (auto simp: format_schema_def group_tables_keys)
qed

theorem format_schema_missing_key_witness:
  "\<lparr>table_name = ''studies'', column_name = ''nct_id'', data_type = ''text'',
     is_nullable = ''NO'', column_default = None\<rparr>
     \<in> set [\<lparr>table_name = ''studies'', column_name = ''nct_id'', data_type = ''text'',
              is_nullable = ''NO'', column_default = None\<rparr>]
   \<and> ''studies'' \<notin> dom [''users'' \<mapsto> (None :: nat row option)]
   \<and> format_schema (\<lambda>v::nat. '''')
        [\<lparr>table_name = ''studies'', column_name = ''nct_id'', data_type = ''text'',
          is_nullable = ''NO'', column_default = None\<rparr>]
        [''users'' \<mapsto> None]
       = Inl (KeyError ''studies'')"
proof -
  let ?c = "\<lparr>table_name = ''studies'', column_name = ''nct_id'', data_type = ''text'',
             is_nullable = ''NO'', column_default = None\<rparr>"
  let ?ex = "[''users'' \<mapsto> (None :: nat row option)]"
  have h1: "?c \<in> set [?c]"
    by simp
  have h2: "table_name ?c \<notin> dom ?ex"
    by simp
  from format_schema_missing_key [OF h1 h2, of "\<lambda>v::nat. ''''"]
  have "format_schema (\<lambda>v::nat. '''') [?c] ?ex = Inl (KeyError ''studies'')"
    by auto
  with h1 h2 show ?thesis
    by simp
qed

end
